theory Spec2Isabelle
  imports Main "HOL-Library.AList"
begin

section \<open>Bucket notification subscriptions of pulumi-aws-serverless\<close>

text \<open>
  The repository holds two near-identical modules, \<^verbatim>\<open>aws-serverless/bucket.ts\<close> and
  \<^verbatim>\<open>aws-serverless/s3/bucket.ts\<close>. Each has its own module-level variable
  \<^verbatim>\<open>bucketSubscriptionInfos\<close>, its own \<^verbatim>\<open>onEvent\<close>, its own class
  \<^verbatim>\<open>BucketEventSubscription\<close> and its own \<^verbatim>\<open>beforeExit\<close> handler; the text of the
  constructor and of the handler is the same in both files, and \<^verbatim>\<open>onEvent\<close> differs
  only in the suffix of the name of the lambda function. The embedding therefore indexes these
  definitions by the source file they belong to.
\<close>

subsection \<open>Data model\<close>

datatype source_file = Bucket_ts | S3_bucket_ts

text \<open>
  An \<^verbatim>\<open>s3.Bucket\<close> is a JavaScript object and a key of a \<^verbatim>\<open>Map\<close>: what counts is its
  identity, here the number of the object. Handlers and \<^verbatim>\<open>pulumi.ResourceOptions\<close> are
  passed on unread by the code of the two modules.
\<close>

datatype bucket = Bucket nat

datatype handler = Handler nat

datatype resource_options = ResourceOptions nat

record lambda_function =
  fn_name :: string
  fn_handler :: handler
  fn_opts :: "resource_options option"

text \<open>
  A \<^verbatim>\<open>pulumi.Output<string>\<close> is known only once the engine has realised the
  resource. The code never reads one; it builds them: \<^verbatim>\<open>bucket.id\<close>, \<^verbatim>\<open>func.arn\<close> and
  \<^verbatim>\<open>bucket.id.apply(bucketName => `arn:aws:s3:::${bucketName}`)\<close>.
\<close>

datatype deferred = BucketId bucket | FunctionArn lambda_function | S3Arn deferred

record SimpleBucketSubscriptionArgs =
  filterPrefix :: "string option"
  filterSuffix :: "string option"

record BucketSubscriptionArgs = SimpleBucketSubscriptionArgs +
  events :: "string list"

text \<open>
  \<^verbatim>\<open>ObjectCreatedSubscriptionArgs\<close> and \<^verbatim>\<open>ObjectRemovedSubscriptionArgs\<close> of
  \<^verbatim>\<open>s3/bucket.ts\<close>. The declared type of \<^verbatim>\<open>event\<close> is a union of string literals
  (\<^verbatim>\<open>"*" | "Put" | "Post" | "Copy" | "CompleteMultipartUpload"\<close>, resp.
  \<^verbatim>\<open>"*" | "Delete" | "DeleteMarkerCreated"\<close>); at run time it is a string or absent.
\<close>

record ObjectSubscriptionArgs = SimpleBucketSubscriptionArgs +
  event :: "string option"

record component =
  comp_type :: string
  comp_name :: string
  comp_func :: lambda_function
  comp_bucket :: bucket
  comp_opts :: "resource_options option"

record permission =
  perm_name :: string
  perm_function :: lambda_function
  perm_action :: string
  perm_principal :: string
  perm_sourceArn :: deferred
  perm_parent :: component

record SubscriptionInfo =
  info_name :: string
  info_events :: "string list"
  info_filterPrefix :: "string option"
  info_filterSuffix :: "string option"
  info_lambdaFunctionArn :: deferred
  info_permission :: permission

record lambda_entry =
  lf_events :: "string list"
  lf_filterPrefix :: "string option"
  lf_filterSuffix :: "string option"
  lf_lambdaFunctionArn :: deferred

record bucket_notification =
  bn_name :: string
  bn_bucket :: deferred
  bn_lambdaFunctions :: "lambda_entry list"
  bn_parent :: bucket
  bn_dependsOn :: "permission list"

text \<open>What the program declares to the engine, one constructor per kind of resource.\<close>

datatype resource =
    Function lambda_function
  | Component component
  | Permission permission
  | BucketNotification bucket_notification

text \<open>
  A \<^verbatim>\<open>Map<s3.Bucket, SubscriptionInfo[]>\<close> iterates in the order in which its keys
  were first set: an association list, \<^verbatim>\<open>get\<close> being \<^const>\<open>map_of\<close> and \<^verbatim>\<open>set\<close>
  being \<^const>\<open>AList.update\<close> (a new key goes to the end).
\<close>

type_synonym registry = "(bucket \<times> SubscriptionInfo list) list"

text \<open>
  The state of the process: the variable \<^verbatim>\<open>bucketSubscriptionInfos\<close> of each module,
  and the resources declared so far, in the order of their declaration.
\<close>

record world =
  bucketSubscriptionInfos :: "source_file \<Rightarrow> registry"
  declared :: "resource list"

record subscription =
  sub_component :: component
  sub_func :: lambda_function
  sub_permission :: permission

text \<open>
  The only exception that the code of the two modules can raise by itself: reading a property
  of \<^verbatim>\<open>undefined\<close> (\<^verbatim>\<open>subscriptions[0].name\<close> in the handler, \<^verbatim>\<open>args.events\<close> in
  the constructor).
\<close>

datatype error = TypeError

subsection \<open>Collaborators outside the two modules\<close>

text \<open>
  Modelled from the spec: \<^verbatim>\<open>createLambdaFunction\<close> of \<^verbatim>\<open>./function\<close>, whose source
  is not at hand. The specification calls it ``the function-packaging/deployment helper that
  turns a handler into a deployable compute resource'': it declares the function resource of
  the given name for the handler and returns it.
\<close>

definition createLambdaFunction ::
  "string \<Rightarrow> handler \<Rightarrow> resource_options option \<Rightarrow> world \<Rightarrow> lambda_function \<times> world" where
  "createLambdaFunction name handler opts s =
     (let func = \<lparr>fn_name = name, fn_handler = handler, fn_opts = opts\<rparr>
      in (func, s\<lparr>declared := declared s @ [Function func]\<rparr>))"

text \<open>
  Modelled from the spec: the constructor of the base class \<^verbatim>\<open>EventSubscription\<close> of
  \<^verbatim>\<open>./subscription\<close>, whose source is not at hand. The specification describes the base
  as a ``generic event subscription base carrying the permission and target handles'': the
  call \<^verbatim>\<open>super(type, name, func, { bucket: bucket }, opts)\<close> declares the component
  resource and yields the object \<^verbatim>\<open>this\<close>.
\<close>

definition EventSubscription ::
  "string \<Rightarrow> string \<Rightarrow> lambda_function \<Rightarrow> bucket \<Rightarrow> resource_options option \<Rightarrow> world
     \<Rightarrow> component \<times> world" where
  "EventSubscription type name func bucket opts s =
     (let this = \<lparr>comp_type = type, comp_name = name, comp_func = func, comp_bucket = bucket,
                  comp_opts = opts\<rparr>
      in (this, s\<lparr>declared := declared s @ [Component this]\<rparr>))"

subsection \<open>The constructor of \<^verbatim>\<open>BucketEventSubscription\<close>\<close>

text \<open>
  The registration at the end of the constructor:
  \<^verbatim>\<open>
  let subscriptions = bucketSubscriptionInfos.get(bucket);
  if (!subscriptions) {
      subscriptions = [];
      bucketSubscriptionInfos.set(bucket, subscriptions);
  }
  subscriptions.push({ ... });
  \<close>
  An array is truthy even when empty, so the test fails exactly for a missing key. The
  \<^verbatim>\<open>push\<close> changes the array that the map holds, in place.
\<close>

definition push_subscription :: "bucket \<Rightarrow> SubscriptionInfo \<Rightarrow> registry \<Rightarrow> registry" where
  "push_subscription bucket info m =
     (let m1 = (case map_of m bucket of
                  None \<Rightarrow> AList.update bucket [] m
                | Some subscriptions \<Rightarrow> m)
      in AList.map_entry bucket (\<lambda>subscriptions. subscriptions @ [info]) m1)"

definition BucketEventSubscription ::
  "source_file \<Rightarrow> string \<Rightarrow> bucket \<Rightarrow> lambda_function \<Rightarrow> BucketSubscriptionArgs
     \<Rightarrow> resource_options option \<Rightarrow> world \<Rightarrow> subscription \<times> world" where
  "BucketEventSubscription M name bucket func args opts s =
     (let (this, s1) =
            EventSubscription ''aws-serverless:bucket:BucketEventSubscription'' name func bucket
              opts s;
          permission = \<lparr>perm_name = name, perm_function = func,
                        perm_action = ''lambda:InvokeFunction'',
                        perm_principal = ''s3.amazonaws.com'',
                        perm_sourceArn = S3Arn (BucketId bucket), perm_parent = this\<rparr>;
          s2 = s1\<lparr>declared := declared s1 @ [Permission permission]\<rparr>;
          info = \<lparr>info_name = name, info_events = events args,
                  info_filterPrefix = filterPrefix args, info_filterSuffix = filterSuffix args,
                  info_lambdaFunctionArn = FunctionArn func, info_permission = permission\<rparr>;
          s3 = s2\<lparr>bucketSubscriptionInfos := (bucketSubscriptionInfos s2)
                    (M := push_subscription bucket info (bucketSubscriptionInfos s2 M))\<rparr>
      in (\<lparr>sub_component = this, sub_func = func, sub_permission = permission\<rparr>, s3))"

subsection \<open>\<^verbatim>\<open>onEvent\<close>\<close>

fun lambda_suffix :: "source_file \<Rightarrow> string" where
  "lambda_suffix Bucket_ts = ''-bucket-subscription''"
| "lambda_suffix S3_bucket_ts = ''-bucket-event''"

definition onEvent ::
  "source_file \<Rightarrow> string \<Rightarrow> bucket \<Rightarrow> handler \<Rightarrow> BucketSubscriptionArgs
     \<Rightarrow> resource_options option \<Rightarrow> world \<Rightarrow> subscription \<times> world" where
  "onEvent M name bucket handler args opts s =
     (let (func, s1) = createLambdaFunction (name @ lambda_suffix M) handler opts s
      in BucketEventSubscription M name bucket func args opts s1)"

subsection \<open>A call that does not respect the type of \<^verbatim>\<open>args\<close>\<close>

text \<open>
  The declared type of \<^verbatim>\<open>args\<close> is not enforced when the program runs: a JavaScript
  caller can pass \<^verbatim>\<open>undefined\<close>. The constructor then declares the component and the
  permission, and puts the new array into the map when the bucket is not yet a key; only then
  the object literal for \<^verbatim>\<open>push\<close> is evaluated, and the read of \<^verbatim>\<open>args.events\<close> throws a
  \<^verbatim>\<open>TypeError\<close> before anything is pushed. The state is the one the throw leaves behind.
  With \<^verbatim>\<open>args\<close> defined this is the constructor above (lemma \<open>onEvent_unchecked_Some\<close>).
\<close>

definition BucketEventSubscription_unchecked ::
  "source_file \<Rightarrow> string \<Rightarrow> bucket \<Rightarrow> lambda_function \<Rightarrow> BucketSubscriptionArgs option
     \<Rightarrow> resource_options option \<Rightarrow> world \<Rightarrow> (error + subscription) \<times> world" where
  "BucketEventSubscription_unchecked M name bucket func args opts s =
     (let (this, s1) =
            EventSubscription ''aws-serverless:bucket:BucketEventSubscription'' name func bucket
              opts s;
          permission = \<lparr>perm_name = name, perm_function = func,
                        perm_action = ''lambda:InvokeFunction'',
                        perm_principal = ''s3.amazonaws.com'',
                        perm_sourceArn = S3Arn (BucketId bucket), perm_parent = this\<rparr>;
          s2 = s1\<lparr>declared := declared s1 @ [Permission permission]\<rparr>;
          m = bucketSubscriptionInfos s2 M;
          m1 = (case map_of m bucket of
                  None \<Rightarrow> AList.update bucket [] m
                | Some subscriptions \<Rightarrow> m);
          s3 = s2\<lparr>bucketSubscriptionInfos := (bucketSubscriptionInfos s2)(M := m1)\<rparr>
      in case args of
           None \<Rightarrow> (Inl TypeError, s3)
         | Some a \<Rightarrow>
             (let info = \<lparr>info_name = name, info_events = events a,
                          info_filterPrefix = filterPrefix a, info_filterSuffix = filterSuffix a,
                          info_lambdaFunctionArn = FunctionArn func,
                          info_permission = permission\<rparr>;
                  m2 = AList.map_entry bucket (\<lambda>subscriptions. subscriptions @ [info]) m1
              in (Inr \<lparr>sub_component = this, sub_func = func, sub_permission = permission\<rparr>,
                  s3\<lparr>bucketSubscriptionInfos := (bucketSubscriptionInfos s3)(M := m2)\<rparr>)))"

definition onEvent_unchecked ::
  "source_file \<Rightarrow> string \<Rightarrow> bucket \<Rightarrow> handler \<Rightarrow> BucketSubscriptionArgs option
     \<Rightarrow> resource_options option \<Rightarrow> world \<Rightarrow> (error + subscription) \<times> world" where
  "onEvent_unchecked M name bucket handler args opts s =
     (let (func, s1) = createLambdaFunction (name @ lambda_suffix M) handler opts s
      in BucketEventSubscription_unchecked M name bucket func args opts s1)"

subsection \<open>The helpers\<close>

text \<open>
  \<^verbatim>\<open>onPut\<close> and \<^verbatim>\<open>onDelete\<close> of \<^verbatim>\<open>bucket.ts\<close>: \<^verbatim>\<open>args = args || {}\<close>, then a copy
  of the arguments with \<^verbatim>\<open>events\<close> set.
\<close>

definition onPut ::
  "string \<Rightarrow> bucket \<Rightarrow> handler \<Rightarrow> SimpleBucketSubscriptionArgs option
     \<Rightarrow> resource_options option \<Rightarrow> world \<Rightarrow> subscription \<times> world" where
  "onPut name bucket handler args opts s =
     (let args1 = (case args of None \<Rightarrow> \<lparr>filterPrefix = None, filterSuffix = None\<rparr>
                   | Some a \<Rightarrow> a);
          argsCopy = \<lparr>filterPrefix = filterPrefix args1, filterSuffix = filterSuffix args1,
                      events = [''s3:ObjectCreated:*'']\<rparr>
      in onEvent Bucket_ts (name @ ''-put'') bucket handler argsCopy opts s)"

definition onDelete ::
  "string \<Rightarrow> bucket \<Rightarrow> handler \<Rightarrow> SimpleBucketSubscriptionArgs option
     \<Rightarrow> resource_options option \<Rightarrow> world \<Rightarrow> subscription \<times> world" where
  "onDelete name bucket handler args opts s =
     (let args1 = (case args of None \<Rightarrow> \<lparr>filterPrefix = None, filterSuffix = None\<rparr>
                   | Some a \<Rightarrow> a);
          argsCopy = \<lparr>filterPrefix = filterPrefix args1, filterSuffix = filterSuffix args1,
                      events = [''s3:ObjectRemoved:*'']\<rparr>
      in onEvent Bucket_ts (name @ ''-delete'') bucket handler argsCopy opts s)"

text \<open>
  \<^verbatim>\<open>onObjectCreated\<close> and \<^verbatim>\<open>onObjectRemoved\<close> of \<^verbatim>\<open>s3/bucket.ts\<close>. In
  \<^verbatim>\<open>args.event = args.event || "*"\<close> the left operand is falsy when the field is absent
  and also when it is the empty string.
\<close>

definition or_star :: "string option \<Rightarrow> string" where
  "or_star e = (case e of None \<Rightarrow> ''*'' | Some x \<Rightarrow> (if x = [] then ''*'' else x))"

definition onObjectCreated ::
  "string \<Rightarrow> bucket \<Rightarrow> handler \<Rightarrow> ObjectSubscriptionArgs option
     \<Rightarrow> resource_options option \<Rightarrow> world \<Rightarrow> subscription \<times> world" where
  "onObjectCreated name bucket handler args opts s =
     (let args1 = (case args of
                     None \<Rightarrow> \<lparr>filterPrefix = None, filterSuffix = None, event = None\<rparr>
                   | Some a \<Rightarrow> a);
          args2 = args1\<lparr>event := Some (or_star (event args1))\<rparr>;
          argsCopy = \<lparr>filterPrefix = filterPrefix args2, filterSuffix = filterSuffix args2,
                      events = [''s3:ObjectCreated:'' @ the (event args2)]\<rparr>
      in onEvent S3_bucket_ts (name @ ''-object-created'') bucket handler argsCopy opts s)"

definition onObjectRemoved ::
  "string \<Rightarrow> bucket \<Rightarrow> handler \<Rightarrow> ObjectSubscriptionArgs option
     \<Rightarrow> resource_options option \<Rightarrow> world \<Rightarrow> subscription \<times> world" where
  "onObjectRemoved name bucket handler args opts s =
     (let args1 = (case args of
                     None \<Rightarrow> \<lparr>filterPrefix = None, filterSuffix = None, event = None\<rparr>
                   | Some a \<Rightarrow> a);
          args2 = args1\<lparr>event := Some (or_star (event args1))\<rparr>;
          argsCopy = \<lparr>filterPrefix = filterPrefix args2, filterSuffix = filterSuffix args2,
                      events = [''s3:ObjectRemoved:'' @ the (event args2)]\<rparr>
      in onEvent S3_bucket_ts (name @ ''-object-removed'') bucket handler argsCopy opts s)"

subsection \<open>The \<^verbatim>\<open>beforeExit\<close> handler\<close>

text \<open>
  The body of the loop \<^verbatim>\<open>for (const [bucket, subscriptions] of copy)\<close>. The first
  argument of the constructor, \<^verbatim>\<open>subscriptions[0].name\<close>, is evaluated before anything is
  declared; on an empty array \<^verbatim>\<open>subscriptions[0]\<close> is \<^verbatim>\<open>undefined\<close> and the read of
  \<^verbatim>\<open>.name\<close> throws.
\<close>

definition notify :: "bucket \<Rightarrow> SubscriptionInfo list \<Rightarrow> world \<Rightarrow> error + world" where
  "notify bucket subscriptions s =
     (let permissions = map info_permission subscriptions
      in case subscriptions of
           [] \<Rightarrow> Inl TypeError
         | first # _ \<Rightarrow>
             Inr (s\<lparr>declared := declared s @
               [BucketNotification
                  \<lparr>bn_name = info_name first,
                   bn_bucket = BucketId bucket,
                   bn_lambdaFunctions =
                     map (\<lambda>subscription.
                            \<lparr>lf_events = info_events subscription,
                             lf_filterPrefix = info_filterPrefix subscription,
                             lf_filterSuffix = info_filterSuffix subscription,
                             lf_lambdaFunctionArn = info_lambdaFunctionArn subscription\<rparr>)
                         subscriptions,
                   bn_parent = bucket,
                   bn_dependsOn = permissions\<rparr>]\<rparr>))"

fun notify_all :: "registry \<Rightarrow> world \<Rightarrow> error + world" where
  "notify_all [] s = Inr s"
| "notify_all ((bucket, subscriptions) # rest) s =
     (case notify bucket subscriptions s of
        Inl e \<Rightarrow> Inl e
      | Inr s' \<Rightarrow> notify_all rest s')"

text \<open>
  The handler: \<^verbatim>\<open>const copy = bucketSubscriptionInfos; bucketSubscriptionInfos = new Map();\<close>
  and then the loop over \<^verbatim>\<open>copy\<close>. After the assignment the arrays of \<^verbatim>\<open>copy\<close> are out
  of reach of the constructor, which looks its array up in the new map.
\<close>

definition beforeExit :: "source_file \<Rightarrow> world \<Rightarrow> error + world" where
  "beforeExit M s =
     (let copy = bucketSubscriptionInfos s M;
          s' = s\<lparr>bucketSubscriptionInfos := (bucketSubscriptionInfos s)(M := [])\<rparr>
      in notify_all copy s')"

subsection \<open>Program runs\<close>

text \<open>
  When the modules are loaded both maps are empty and nothing has been declared. A run is a
  sequence of calls of \<^verbatim>\<open>onEvent\<close>, each with its \<^verbatim>\<open>args\<close> as the declared type wants
  them, and of firings of the two handlers; an exception that escapes a handler ends it.
\<close>

definition initial :: world where
  "initial = \<lparr>bucketSubscriptionInfos = (\<lambda>M. []), declared = []\<rparr>"

datatype call = Call string bucket handler BucketSubscriptionArgs "resource_options option"

datatype event = Subscribe source_file call | BeforeExit source_file

fun subscribe :: "source_file \<Rightarrow> call \<Rightarrow> world \<Rightarrow> world" where
  "subscribe M (Call name bucket handler args opts) s =
     snd (onEvent M name bucket handler args opts s)"

fun exec :: "event \<Rightarrow> world \<Rightarrow> error + world" where
  "exec (Subscribe M c) s = Inr (subscribe M c s)"
| "exec (BeforeExit M) s = beforeExit M s"

fun run :: "event list \<Rightarrow> world \<Rightarrow> error + world" where
  "run [] s = Inr s"
| "run (e # es) s = (case exec e s of Inl err \<Rightarrow> Inl err | Inr s' \<Rightarrow> run es s')"

text \<open>
  The calls of a list made one after the other, with the objects they return.
\<close>

fun subscribe_all :: "source_file \<Rightarrow> call list \<Rightarrow> world \<Rightarrow> subscription list \<times> world" where
  "subscribe_all M [] s = ([], s)"
| "subscribe_all M (Call name bucket handler args opts # cs) s =
     (let (h, s1) = onEvent M name bucket handler args opts s;
          (hs, s2) = subscribe_all M cs s1
      in (h # hs, s2))"

subsection \<open>Calls while a pass of the handler is under way\<close>

text \<open>
  The loop of the handler is synchronous: in the source no call of \<^verbatim>\<open>onEvent\<close> can fall
  between two of its iterations, only after it, before the handler fires again. The
  specification asks about subscriptions registered ``during'' a pass, simulated by
  interleaving. The following variant of the handler takes a schedule: after the exchange of
  the map, each \<open>During\<close> step is a call of \<^verbatim>\<open>onEvent\<close> and each \<open>Iteration\<close> step is
  one iteration of the loop over \<^verbatim>\<open>copy\<close> (none is left to do once \<^verbatim>\<open>copy\<close> is used
  up); the iterations that remain when the schedule ends run at once. With the empty schedule
  it is the handler itself.
\<close>

datatype step = Iteration | During call

fun during_calls :: "step list \<Rightarrow> call list" where
  "during_calls [] = []"
| "during_calls (Iteration # steps) = during_calls steps"
| "during_calls (During c # steps) = c # during_calls steps"

fun loop_during ::
  "source_file \<Rightarrow> registry \<Rightarrow> step list \<Rightarrow> world \<Rightarrow> error + subscription list \<times> world" where
  "loop_during M copy [] s =
     (case notify_all copy s of Inl e \<Rightarrow> Inl e | Inr s' \<Rightarrow> Inr ([], s'))"
| "loop_during M copy (During (Call name bucket handler args opts) # steps) s =
     (let (h, s1) = onEvent M name bucket handler args opts s
      in case loop_during M copy steps s1 of
           Inl e \<Rightarrow> Inl e
         | Inr (hs, s2) \<Rightarrow> Inr (h # hs, s2))"
| "loop_during M [] (Iteration # steps) s = loop_during M [] steps s"
| "loop_during M ((bucket, subscriptions) # rest) (Iteration # steps) s =
     (case notify bucket subscriptions s of
        Inl e \<Rightarrow> Inl e
      | Inr s1 \<Rightarrow> loop_during M rest steps s1)"

definition beforeExit_during ::
  "source_file \<Rightarrow> step list \<Rightarrow> world \<Rightarrow> error + subscription list \<times> world" where
  "beforeExit_during M steps s =
     (let copy = bucketSubscriptionInfos s M;
          s' = s\<lparr>bucketSubscriptionInfos := (bucketSubscriptionInfos s)(M := [])\<rparr>
      in loop_during M copy steps s')"

section \<open>Vocabulary of the properties\<close>

text \<open>The array that a map holds for a bucket, empty when the bucket is not a key.\<close>

definition subs_of :: "registry \<Rightarrow> bucket \<Rightarrow> SubscriptionInfo list" where
  "subs_of m b = (case map_of m b of None \<Rightarrow> [] | Some l \<Rightarrow> l)"

definition nonempty_lists :: "registry \<Rightarrow> bool" where
  "nonempty_lists m = list_all (\<lambda>(b, l). l \<noteq> []) m"

fun call_name :: "call \<Rightarrow> string" where
  "call_name (Call name bucket handler args opts) = name"

fun call_bucket :: "call \<Rightarrow> bucket" where
  "call_bucket (Call name bucket handler args opts) = bucket"

fun call_args :: "call \<Rightarrow> BucketSubscriptionArgs" where
  "call_args (Call name bucket handler args opts) = args"

text \<open>The aggregate resources among the declared ones, and those of one bucket.\<close>

fun notifications :: "resource list \<Rightarrow> bucket_notification list" where
  "notifications [] = []"
| "notifications (BucketNotification n # rs) = n # notifications rs"
| "notifications (r # rs) = notifications rs"

definition notifications_for :: "bucket \<Rightarrow> resource list \<Rightarrow> bucket_notification list" where
  "notifications_for b rs = filter (\<lambda>n. bn_parent n = b) (notifications rs)"





text \<open>
  What the specification expects of the aggregate of a bucket, stated from the calls made on
  the bucket and the objects these calls returned, in the order of the calls: the name of the
  first call, one entry \<open>{events, filterPrefix, filterSuffix, lambdaFunctionArn}\<close> for each
  call, the bucket as parent, and the permissions of all the calls as dependencies.
\<close>

definition expected_aggregate :: "bucket \<Rightarrow> (call \<times> subscription) list \<Rightarrow> bucket_notification" where
  "expected_aggregate b chs =
     \<lparr>bn_name = call_name (fst (hd chs)),
      bn_bucket = BucketId b,
      bn_lambdaFunctions =
        map (\<lambda>(c, h). \<lparr>lf_events = events (call_args c),
                        lf_filterPrefix = filterPrefix (call_args c),
                        lf_filterSuffix = filterSuffix (call_args c),
                        lf_lambdaFunctionArn = FunctionArn (sub_func h)\<rparr>) chs,
      bn_parent = b,
      bn_dependsOn = map (\<lambda>(c, h). sub_permission h) chs\<rparr>"

definition on_bucket :: "bucket \<Rightarrow> (call \<times> subscription) list \<Rightarrow> (call \<times> subscription) list" where
  "on_bucket b chs = filter (\<lambda>(c, h). call_bucket c = b) chs"

text \<open>
  For the proofs: the object that \<^const>\<open>onEvent\<close> returns for a call (it does not depend on
  the state), the record the call registers, the resource one iteration of the loop declares,
  the map after a list of calls, and the invariant of the maps.
\<close>

fun handle_of :: "source_file \<Rightarrow> call \<Rightarrow> subscription" where
  "handle_of M (Call name bucket handler args opts) =
     fst (onEvent M name bucket handler args opts initial)"

definition request_of :: "source_file \<Rightarrow> call \<Rightarrow> SubscriptionInfo" where
  "request_of M c =
     \<lparr>info_name = call_name c, info_events = events (call_args c),
      info_filterPrefix = filterPrefix (call_args c),
      info_filterSuffix = filterSuffix (call_args c),
      info_lambdaFunctionArn = FunctionArn (sub_func (handle_of M c)),
      info_permission = sub_permission (handle_of M c)\<rparr>"

definition notification_of :: "bucket \<times> SubscriptionInfo list \<Rightarrow> bucket_notification" where
  "notification_of p =
     \<lparr>bn_name = info_name (hd (snd p)), bn_bucket = BucketId (fst p),
      bn_lambdaFunctions =
        map (\<lambda>x. \<lparr>lf_events = info_events x, lf_filterPrefix = info_filterPrefix x,
                  lf_filterSuffix = info_filterSuffix x,
                  lf_lambdaFunctionArn = info_lambdaFunctionArn x\<rparr>) (snd p),
      bn_parent = fst p, bn_dependsOn = map info_permission (snd p)\<rparr>"

definition registered :: "source_file \<Rightarrow> call list \<Rightarrow> registry \<Rightarrow> registry" where
  "registered M cs m = foldl (\<lambda>m c. push_subscription (call_bucket c) (request_of M c) m) m cs"

definition world_ok :: "world \<Rightarrow> bool" where
  "world_ok s = (\<forall>M. distinct (map fst (bucketSubscriptionInfos s M)) \<and>
                     nonempty_lists (bucketSubscriptionInfos s M))"

text \<open>
  The calls of the scenario of the specification: \<open>a\<close> and \<open>b\<close> on one bucket, for
  created and for removed objects, and \<open>c\<close> on another bucket.
\<close>

definition call_a :: call where
  "call_a = Call ''a'' (Bucket 1) (Handler 1)
     \<lparr>filterPrefix = None, filterSuffix = None, events = [''s3:ObjectCreated:*'']\<rparr> None"

definition call_b :: call where
  "call_b = Call ''b'' (Bucket 1) (Handler 2)
     \<lparr>filterPrefix = Some ''in/'', filterSuffix = None, events = [''s3:ObjectRemoved:*'']\<rparr> None"

definition call_c :: call where
  "call_c = Call ''c'' (Bucket 2) (Handler 1)
     \<lparr>filterPrefix = None, filterSuffix = None, events = [''s3:ObjectCreated:*'']\<rparr> None"

section \<open>Lemmas\<close>

subsection \<open>The map of a module\<close>

lemma map_entry_update_same:
  "AList.map_entry k f (AList.update k v m) = AList.update k (f v) m"
  by (induction m) auto

lemma map_entry_as_update:
  "map_of m k = Some v \<Longrightarrow> AList.map_entry k f m = AList.update k (f v) m"
  by (induction m) (auto split: if_splits)

lemma push_subscription_update:
  "push_subscription b i m = AList.update b (subs_of m b @ [i]) m"
  by (simp add: push_subscription_def subs_of_def map_entry_update_same map_entry_as_update
      split: option.splits)

lemma distinct_push: "distinct (map fst m) \<Longrightarrow> distinct (map fst (push_subscription b i m))"
  by (simp add: push_subscription_update distinct_update)

lemma subs_of_push:
  "subs_of (push_subscription b i m) b' = (if b' = b then subs_of m b @ [i] else subs_of m b')"
  by (simp add: push_subscription_update subs_of_def update_conv')

lemma subs_of_Nil: "subs_of [] b = []"
  by (simp add: subs_of_def)

lemma nonempty_update:
  "nonempty_lists m \<Longrightarrow> l \<noteq> [] \<Longrightarrow> nonempty_lists (AList.update b l m)"
  by (induction m) (auto simp: nonempty_lists_def)

lemma nonempty_push: "nonempty_lists m \<Longrightarrow> nonempty_lists (push_subscription b i m)"
  by (simp add: push_subscription_update nonempty_update)

subsection \<open>The effect of a call\<close>

lemma onEvent_fst:
  "fst (onEvent M name bucket handler args opts s) = handle_of M (Call name bucket handler args opts)"
  by (simp add: onEvent_def createLambdaFunction_def BucketEventSubscription_def
      EventSubscription_def Let_def)

lemma onEvent_registry:
  "bucketSubscriptionInfos (snd (onEvent M name bucket handler args opts s)) =
     (bucketSubscriptionInfos s)
       (M := push_subscription bucket (request_of M (Call name bucket handler args opts))
               (bucketSubscriptionInfos s M))"
  by (simp add: onEvent_def createLambdaFunction_def BucketEventSubscription_def
      EventSubscription_def Let_def request_of_def)

lemma onEvent_declared:
  "declared (snd (onEvent M name bucket handler args opts s)) =
     declared s @
       [Function (sub_func (handle_of M (Call name bucket handler args opts))),
        Component (sub_component (handle_of M (Call name bucket handler args opts))),
        Permission (sub_permission (handle_of M (Call name bucket handler args opts)))]"
  by (simp add: onEvent_def createLambdaFunction_def BucketEventSubscription_def
      EventSubscription_def Let_def)

lemma subscribe_registry:
  "bucketSubscriptionInfos (subscribe M c s) =
     (bucketSubscriptionInfos s)
       (M := push_subscription (call_bucket c) (request_of M c) (bucketSubscriptionInfos s M))"
  by (cases c) (simp add: onEvent_registry)

lemma notifications_append: "notifications (xs @ ys) = notifications xs @ notifications ys"
  by (induction xs rule: notifications.induct) auto

lemma notifications_map:
  "notifications (map (\<lambda>p. BucketNotification (f p)) m) = map f m"
  by (induction m) auto

lemma subscribe_notifications:
  "notifications (declared (subscribe M c s)) = notifications (declared s)"
  by (cases c) (simp add: onEvent_declared notifications_append)

lemma subscribe_all_eq:
  "subscribe_all M cs s = (map (handle_of M) cs, foldl (\<lambda>s c. subscribe M c s) s cs)"
proof (induction cs arbitrary: s)
  case Nil
  show ?case by simp
next
  case (Cons c cs)
  obtain name bucket handler args opts where c: "c = Call name bucket handler args opts"
    by (cases c)
  show ?case
    unfolding c
    by (simp add: Cons.IH case_prod_unfold Let_def onEvent_fst del: handle_of.simps)
qed

subsection \<open>The effect of the handler\<close>

lemma notify_Inr:
  "l \<noteq> [] \<Longrightarrow> notify b l s = Inr (s\<lparr>declared := declared s @ [BucketNotification (notification_of (b, l))]\<rparr>)"
  by (cases l) (simp_all add: notify_def notification_of_def)

lemma notify_all_Inr:
  "nonempty_lists m \<Longrightarrow>
     notify_all m s = Inr (s\<lparr>declared := declared s @ map (\<lambda>p. BucketNotification (notification_of p)) m\<rparr>)"
proof (induction m arbitrary: s)
  case Nil
  show ?case by simp
next
  case (Cons p m)
  obtain b l where p: "p = (b, l)" by (cases p)
  from Cons.prems have l: "l \<noteq> []" and m: "nonempty_lists m"
    by (simp_all add: p nonempty_lists_def)
  show ?case
    by (simp add: p notify_Inr [OF l] Cons.IH [OF m])
qed

lemma beforeExit_Inr:
  "nonempty_lists (bucketSubscriptionInfos s M) \<Longrightarrow>
     beforeExit M s =
       Inr (s\<lparr>bucketSubscriptionInfos := (bucketSubscriptionInfos s)(M := []),
              declared := declared s @
                map (\<lambda>p. BucketNotification (notification_of p)) (bucketSubscriptionInfos s M)\<rparr>)"
  by (simp add: beforeExit_def Let_def notify_all_Inr)

lemma notify_registry:
  "notify b l s = Inr s' \<Longrightarrow> bucketSubscriptionInfos s' = bucketSubscriptionInfos s"
  by (cases l) (auto simp: notify_def)

lemma notify_all_registry:
  "notify_all m s = Inr s' \<Longrightarrow> bucketSubscriptionInfos s' = bucketSubscriptionInfos s"
proof (induction m arbitrary: s)
  case Nil
  then show ?case by simp
next
  case (Cons p m)
  obtain b l where p: "p = (b, l)" by (cases p)
  from Cons.prems obtain s1 where n: "notify b l s = Inr s1" and r: "notify_all m s1 = Inr s'"
    by (auto simp: p split: sum.splits)
  from Cons.IH [OF r] notify_registry [OF n] show ?case by simp
qed

lemma beforeExit_empty:
  "bucketSubscriptionInfos s M = [] \<Longrightarrow> beforeExit M s = Inr s"
proof -
  assume e: "bucketSubscriptionInfos s M = []"
  then have "(bucketSubscriptionInfos s)(M := []) = bucketSubscriptionInfos s"
    by (simp add: fun_upd_idem_iff)
  then show ?thesis by (simp add: beforeExit_def e)
qed

lemmas eval_defs = onEvent_def createLambdaFunction_def BucketEventSubscription_def
  EventSubscription_def push_subscription_def initial_def Let_def beforeExit_def notify_def
  notifications_for_def call_a_def call_b_def call_c_def

subsection \<open>The map after a list of calls\<close>

lemma filter_key_distinct:
  "distinct (map fst m) \<Longrightarrow> map_of m k = Some v \<Longrightarrow> filter (\<lambda>p. fst p = k) m = [(k, v)]"
proof (induction m)
  case Nil
  then show ?case by simp
next
  case (Cons p m)
  show ?case
  proof (cases "fst p = k")
    case True
    with Cons.prems have "p = (k, v)" by (cases p) simp
    moreover from Cons.prems True have "k \<notin> fst ` set m" by auto
    then have "filter (\<lambda>p. fst p = k) m = []" by (auto simp: filter_empty_conv)
    ultimately show ?thesis by simp
  next
    case False
    with Cons show ?thesis by (cases p) auto
  qed
qed

lemma filter_key_absent:
  "map_of m k = None \<Longrightarrow> filter (\<lambda>p. fst p = k) m = []"
  by (auto simp: filter_empty_conv map_of_eq_None_iff)

lemma registered_Nil: "registered M [] m = m"
  by (simp add: registered_def)

lemma registered_Cons:
  "registered M (c # cs) m = registered M cs (push_subscription (call_bucket c) (request_of M c) m)"
  by (simp add: registered_def)

lemma distinct_registered:
  "distinct (map fst m) \<Longrightarrow> distinct (map fst (registered M cs m))"
  by (induction cs arbitrary: m) (simp_all add: registered_Nil registered_Cons distinct_push)

lemma nonempty_registered:
  "nonempty_lists m \<Longrightarrow> nonempty_lists (registered M cs m)"
  by (induction cs arbitrary: m) (simp_all add: registered_Nil registered_Cons nonempty_push)

lemma subs_of_registered:
  "subs_of (registered M cs m) b =
     subs_of m b @ map (request_of M) (filter (\<lambda>c. call_bucket c = b) cs)"
  by (induction cs arbitrary: m) (simp_all add: registered_Nil registered_Cons subs_of_push)

lemma subscribes_registry:
  "bucketSubscriptionInfos (foldl (\<lambda>s c. subscribe M c s) s cs) =
     (bucketSubscriptionInfos s)(M := registered M cs (bucketSubscriptionInfos s M))"
proof (induction cs arbitrary: s)
  case Nil
  show ?case by (simp add: registered_Nil)
next
  case (Cons c cs)
  show ?case by (simp add: Cons.IH subscribe_registry registered_Cons fun_eq_iff)
qed

lemma subscribes_notifications:
  "notifications (declared (foldl (\<lambda>s c. subscribe M c s) s cs)) = notifications (declared s)"
  by (induction cs arbitrary: s) (simp_all add: subscribe_notifications)

lemma map_of_subs_of:
  "nonempty_lists m \<Longrightarrow> map_of m b = (if subs_of m b = [] then None else Some (subs_of m b))"
proof (cases "map_of m b")
  case None
  then show ?thesis by (simp add: subs_of_def)
next
  case (Some l)
  assume "nonempty_lists m"
  moreover from Some have "(b, l) \<in> set m" by (rule map_of_SomeD)
  ultimately have "l \<noteq> []" by (auto simp: nonempty_lists_def list_all_iff)
  with Some show ?thesis by (simp add: subs_of_def)
qed

lemma notifications_for_registry:
  assumes "distinct (map fst m)" and "nonempty_lists m"
  shows "filter (\<lambda>n. bn_parent n = b) (map notification_of m) =
           (if subs_of m b = [] then [] else [notification_of (b, subs_of m b)])"
proof -
  have "filter (\<lambda>n. bn_parent n = b) (map notification_of m) =
          map notification_of (filter (\<lambda>p. fst p = b) m)"
    by (simp add: filter_map o_def notification_of_def)
  also have "\<dots> = (if subs_of m b = [] then [] else [notification_of (b, subs_of m b)])"
    using assms by (simp add: map_of_subs_of filter_key_distinct filter_key_absent)
  finally show ?thesis .
qed

lemma notification_of_requests:
  "cs \<noteq> [] \<Longrightarrow>
     notification_of (b, map (request_of M) cs) =
       expected_aggregate b (map (\<lambda>c. (c, handle_of M c)) cs)"
  by (cases cs) (simp_all add: notification_of_def expected_aggregate_def request_of_def o_def
      del: handle_of.simps)

lemma on_bucket_zip:
  "on_bucket b (zip cs (map f cs)) = map (\<lambda>c. (c, f c)) (filter (\<lambda>c. call_bucket c = b) cs)"
  by (induction cs) (simp_all add: on_bucket_def)


lemma pass_after_calls:
  assumes m: "distinct (map fst (bucketSubscriptionInfos s M))"
             "nonempty_lists (bucketSubscriptionInfos s M)"
      and s1: "s1 = foldl (\<lambda>s c. subscribe M c s) s cs"
  shows "\<exists>s2. beforeExit M s1 = Inr s2 \<and> bucketSubscriptionInfos s2 = (bucketSubscriptionInfos s)(M := []) \<and>
           (\<forall>b. notifications_for b (declared s2) =
              notifications_for b (declared s) @
                (if subs_of (registered M cs (bucketSubscriptionInfos s M)) b = [] then []
                 else [notification_of (b, subs_of (registered M cs (bucketSubscriptionInfos s M)) b)]))"
proof -
  let ?R = "registered M cs (bucketSubscriptionInfos s M)"
  have R: "bucketSubscriptionInfos s1 M = ?R"
    by (simp add: s1 subscribes_registry)
  have d: "distinct (map fst ?R)" and n: "nonempty_lists ?R"
    using m by (simp_all add: distinct_registered nonempty_registered)
  let ?s2 = "s1\<lparr>bucketSubscriptionInfos := (bucketSubscriptionInfos s1)(M := []),
                declared := declared s1 @ map (\<lambda>p. BucketNotification (notification_of p)) ?R\<rparr>"
  have "beforeExit M s1 = Inr ?s2"
    using n beforeExit_Inr [of s1 M] by (simp add: R)
  moreover have "bucketSubscriptionInfos ?s2 = (bucketSubscriptionInfos s)(M := [])"
    by (simp add: s1 subscribes_registry)
  moreover have "notifications_for b (declared ?s2) =
      notifications_for b (declared s) @
        (if subs_of ?R b = [] then [] else [notification_of (b, subs_of ?R b)])" for b
    by (simp add: notifications_for_def notifications_append notifications_map
        notifications_for_registry [OF d n] s1 subscribes_notifications)
  ultimately show ?thesis by blast
qed

subsection \<open>The invariant of the maps\<close>

lemma world_ok_initial: "world_ok initial"
  by (simp add: world_ok_def initial_def nonempty_lists_def)

lemma world_ok_subscribe: "world_ok s \<Longrightarrow> world_ok (subscribe M c s)"
  by (simp add: world_ok_def subscribe_registry distinct_push nonempty_push)

lemma beforeExit_ok:
  assumes "world_ok s"
  shows "\<exists>s'. beforeExit M s = Inr s' \<and> world_ok s' \<and>
           bucketSubscriptionInfos s' = (bucketSubscriptionInfos s)(M := []) \<and>
           declared s' = declared s @
             map (\<lambda>p. BucketNotification (notification_of p)) (bucketSubscriptionInfos s M)"
proof -
  from assms have n: "nonempty_lists (bucketSubscriptionInfos s M)"
    by (simp add: world_ok_def)
  from assms show ?thesis
    by (simp add: beforeExit_Inr [OF n] world_ok_def nonempty_lists_def)
qed

lemma exec_ok: "world_ok s \<Longrightarrow> \<exists>s'. exec e s = Inr s' \<and> world_ok s'"
proof (cases e)
  case (Subscribe M c)
  assume "world_ok s"
  then show ?thesis by (simp add: Subscribe world_ok_subscribe)
next
  case (BeforeExit M)
  assume "world_ok s"
  from beforeExit_ok [OF this, of M] show ?thesis by (auto simp: BeforeExit)
qed

lemma run_ok: "world_ok s \<Longrightarrow> \<exists>s'. run evs s = Inr s' \<and> world_ok s'"
proof (induction evs arbitrary: s)
  case Nil
  then show ?case by simp
next
  case (Cons e evs)
  from exec_ok [OF Cons.prems, of e] obtain s1 where e: "exec e s = Inr s1" and ok: "world_ok s1"
    by blast
  from Cons.IH [OF ok] show ?case by (simp add: e)
qed

lemma run_initial_ok: "run evs initial = Inr s \<Longrightarrow> world_ok s"
  using run_ok [OF world_ok_initial, of evs] by auto

lemma first_call_names_aggregate:
  assumes ok: "world_ok s0"
      and absent: "map_of (bucketSubscriptionInfos s0 M) b = None"
      and b: "call_bucket c = b"
      and s1: "s1 = foldl (\<lambda>s c. subscribe M c s) s0 (c # cs)"
  shows "\<exists>s2 n. beforeExit M s1 = Inr s2 \<and>
           notifications_for b (declared s2) = notifications_for b (declared s0) @ [n] \<and>
           bn_name n = call_name c"
proof -
  from ok have m: "distinct (map fst (bucketSubscriptionInfos s0 M))"
    "nonempty_lists (bucketSubscriptionInfos s0 M)"
    by (simp_all add: world_ok_def)
  have subs: "subs_of (registered M (c # cs) (bucketSubscriptionInfos s0 M)) b =
      request_of M c # map (request_of M) (filter (\<lambda>c. call_bucket c = b) cs)"
    by (simp add: subs_of_registered b) (simp add: subs_of_def absent)
  from pass_after_calls [OF m s1] obtain s2 where
    "beforeExit M s1 = Inr s2" and
    "\<And>b. notifications_for b (declared s2) =
       notifications_for b (declared s0) @
         (if subs_of (registered M (c # cs) (bucketSubscriptionInfos s0 M)) b = [] then []
          else [notification_of (b, subs_of (registered M (c # cs) (bucketSubscriptionInfos s0 M)) b)])"
    by blast
  then show ?thesis
    by (simp add: subs notification_of_def request_of_def)
qed

subsection \<open>The map and the aggregates along a run\<close>









subsection \<open>The handler on an empty array\<close>

lemma onEvent_unchecked_Some:
  "onEvent_unchecked M name bucket handler (Some args) opts s =
     (Inr (fst (onEvent M name bucket handler args opts s)),
      snd (onEvent M name bucket handler args opts s))"
  by (simp add: onEvent_unchecked_def onEvent_def BucketEventSubscription_unchecked_def
      BucketEventSubscription_def createLambdaFunction_def EventSubscription_def
      push_subscription_def Let_def)

lemma notify_all_empty:
  "(b, []) \<in> set m \<Longrightarrow> notify_all m s = Inl TypeError"
proof (induction m arbitrary: s)
  case Nil
  then show ?case by simp
next
  case (Cons p m)
  obtain b' l where p: "p = (b', l)" by (cases p)
  show ?case
  proof (cases l)
    case Nil
    then show ?thesis by (simp add: p notify_def)
  next
    case (Cons x xs)
    with Cons.prems have "(b, []) \<in> set m" by (auto simp: p)
    then show ?thesis
      using Cons.IH by (simp add: p notify_def Cons)
  qed
qed

subsection \<open>A pass with calls in between\<close>

lemma beforeExit_during_Nil:
  "beforeExit_during M [] s = (case beforeExit M s of Inl e \<Rightarrow> Inl e | Inr s' \<Rightarrow> Inr ([], s'))"
  by (simp add: beforeExit_during_def beforeExit_def)

lemma loop_during_ok:
  "nonempty_lists copy \<Longrightarrow>
     \<exists>s'. loop_during M copy steps s = Inr (map (handle_of M) (during_calls steps), s') \<and>
          bucketSubscriptionInfos s' =
            (bucketSubscriptionInfos s)
              (M := registered M (during_calls steps) (bucketSubscriptionInfos s M)) \<and>
          notifications (declared s') = notifications (declared s) @ map notification_of copy"
proof (induction M copy steps s rule: loop_during.induct)
  case (1 M copy s)
  then show ?case
    by (simp add: notify_all_Inr registered_Nil notifications_append notifications_map)
next
  case (2 M copy name bucket handler args opts steps s)
  let ?c = "Call name bucket handler args opts"
  obtain s1 where eq: "onEvent M name bucket handler args opts s = (handle_of M ?c, s1)"
    using onEvent_fst [of M name bucket handler args opts s]
    by (cases "onEvent M name bucket handler args opts s") simp
  from "2.IH" [OF eq [symmetric] refl "2.prems"] obtain s' where
    l: "loop_during M copy steps s1 = Inr (map (handle_of M) (during_calls steps), s')" and
    r: "bucketSubscriptionInfos s' =
          (bucketSubscriptionInfos s1)
            (M := registered M (during_calls steps) (bucketSubscriptionInfos s1 M))" and
    n: "notifications (declared s') = notifications (declared s1) @ map notification_of copy"
    by blast
  have s1: "s1 = subscribe M ?c s" by (simp add: eq)
  have "loop_during M copy (During ?c # steps) s =
          Inr (map (handle_of M) (during_calls (During ?c # steps)), s')"
    by (simp add: eq l del: handle_of.simps)
  moreover have "bucketSubscriptionInfos s' =
      (bucketSubscriptionInfos s)
        (M := registered M (during_calls (During ?c # steps)) (bucketSubscriptionInfos s M))"
    unfolding r s1 by (simp add: subscribe_registry registered_Cons del: subscribe.simps)
  moreover have "notifications (declared s') = notifications (declared s) @ map notification_of copy"
    unfolding n s1 by (simp add: subscribe_notifications del: subscribe.simps)
  ultimately show ?case by blast
next
  case (3 M steps s)
  then show ?case by simp
next
  case (4 M bucket subscriptions rest steps s)
  from "4.prems" have l: "subscriptions \<noteq> []" and rest: "nonempty_lists rest"
    by (simp_all add: nonempty_lists_def)
  let ?s1 = "s\<lparr>declared := declared s @ [BucketNotification (notification_of (bucket, subscriptions))]\<rparr>"
  have n: "notify bucket subscriptions s = Inr ?s1"
    by (rule notify_Inr [OF l])
  from "4.IH" [OF n rest] show ?case
    by (auto simp: n notifications_append)
qed

subsection \<open>The helpers as calls of the generic entry point\<close>

lemma onPut_onEvent:
  "onPut name b h a opts s =
     onEvent Bucket_ts (name @ ''-put'') b h
       \<lparr>filterPrefix = (case a of None \<Rightarrow> None | Some x \<Rightarrow> filterPrefix x),
        filterSuffix = (case a of None \<Rightarrow> None | Some x \<Rightarrow> filterSuffix x),
        events = [''s3:ObjectCreated:*'']\<rparr> opts s"
  by (cases a) (simp_all add: onPut_def)

lemma onDelete_onEvent:
  "onDelete name b h a opts s =
     onEvent Bucket_ts (name @ ''-delete'') b h
       \<lparr>filterPrefix = (case a of None \<Rightarrow> None | Some x \<Rightarrow> filterPrefix x),
        filterSuffix = (case a of None \<Rightarrow> None | Some x \<Rightarrow> filterSuffix x),
        events = [''s3:ObjectRemoved:*'']\<rparr> opts s"
  by (cases a) (simp_all add: onDelete_def)

lemma onObjectCreated_onEvent:
  "onObjectCreated name b h a opts s =
     onEvent S3_bucket_ts (name @ ''-object-created'') b h
       \<lparr>filterPrefix = (case a of None \<Rightarrow> None | Some x \<Rightarrow> filterPrefix x),
        filterSuffix = (case a of None \<Rightarrow> None | Some x \<Rightarrow> filterSuffix x),
        events = [''s3:ObjectCreated:'' @ or_star (case a of None \<Rightarrow> None | Some x \<Rightarrow> event x)]\<rparr>
       opts s"
  by (cases a) (simp_all add: onObjectCreated_def or_star_def)

lemma onObjectRemoved_onEvent:
  "onObjectRemoved name b h a opts s =
     onEvent S3_bucket_ts (name @ ''-object-removed'') b h
       \<lparr>filterPrefix = (case a of None \<Rightarrow> None | Some x \<Rightarrow> filterPrefix x),
        filterSuffix = (case a of None \<Rightarrow> None | Some x \<Rightarrow> filterSuffix x),
        events = [''s3:ObjectRemoved:'' @ or_star (case a of None \<Rightarrow> None | Some x \<Rightarrow> event x)]\<rparr>
       opts s"
  by (cases a) (simp_all add: onObjectRemoved_def or_star_def)

lemma helper_first:
  assumes r: "run evs initial = Inr s"
      and absent: "map_of (bucketSubscriptionInfos s M) b = None"
  shows "\<exists>s2 n. beforeExit M (snd (subscribe_all M cs (snd (onEvent M name b h a opts s)))) = Inr s2 \<and>
           notifications_for b (declared s2) = notifications_for b (declared s) @ [n] \<and>
           bn_name n = name"
proof -
  have s1: "snd (subscribe_all M cs (snd (onEvent M name b h a opts s))) =
      foldl (\<lambda>s c. subscribe M c s) s (Call name b h a opts # cs)"
    by (simp add: subscribe_all_eq)
  from first_call_names_aggregate [OF run_initial_ok [OF r] absent _ s1]
  show ?thesis by simp
qed

lemma helper_registers:
  "map info_name (subs_of (bucketSubscriptionInfos (snd (onEvent M name b h a opts s)) M) b) =
     map info_name (subs_of (bucketSubscriptionInfos s M) b) @ [name]"
  by (simp add: onEvent_registry subs_of_push request_of_def del: handle_of.simps)

section \<open>The claims\<close>

subsection \<open>One aggregate for the subscriptions of a bucket\<close>

text \<open>
  Claim C1. Start from a state in which the map of the module is empty (the start of the
  program, or the state a pass leaves), make any sequence of calls of \<^verbatim>\<open>onEvent\<close>, of
  which at least one is on bucket \<open>b\<close>, and let the handler fire once. Then the handler
  ends without error and has declared exactly one more aggregate for \<open>b\<close>: the one of
  \<^const>\<open>expected_aggregate\<close>, built from exactly the calls on \<open>b\<close> and the objects they
  returned, in the order of the calls. Equal requests are all kept, calls on other buckets
  contribute nothing, the parent is the bucket and the dependencies are the permissions of all
  these calls.
\<close>

theorem single_aggregate:
  assumes "bucketSubscriptionInfos s0 M = []"
      and "subscribe_all M cs s0 = (hs, s1)"
      and "on_bucket b (zip cs hs) \<noteq> []"
  shows "length hs = length cs \<and>
         (\<exists>s2. beforeExit M s1 = Inr s2 \<and>
            notifications_for b (declared s2) =
              notifications_for b (declared s0) @
                [expected_aggregate b (on_bucket b (zip cs hs))])"
proof -
  from assms(2) have hs: "hs = map (handle_of M) cs"
    and s1: "s1 = foldl (\<lambda>s c. subscribe M c s) s0 cs"
    by (simp_all add: subscribe_all_eq)
  let ?cs = "filter (\<lambda>c. call_bucket c = b) cs"
  from assms(3) have ne: "?cs \<noteq> []"
    by (simp add: hs on_bucket_zip)
  have m: "distinct (map fst (bucketSubscriptionInfos s0 M))"
    "nonempty_lists (bucketSubscriptionInfos s0 M)"
    by (simp_all add: assms(1) nonempty_lists_def)
  have subs: "subs_of (registered M cs (bucketSubscriptionInfos s0 M)) b = map (request_of M) ?cs"
    by (simp add: subs_of_registered assms(1) subs_of_Nil)
  have agg: "notification_of (b, map (request_of M) ?cs) =
      expected_aggregate b (on_bucket b (zip cs hs))"
    by (simp add: notification_of_requests [OF ne] hs on_bucket_zip)
  from pass_after_calls [OF m s1] obtain s2 where
    "beforeExit M s1 = Inr s2" and
    "\<And>b. notifications_for b (declared s2) =
       notifications_for b (declared s0) @
         (if subs_of (registered M cs (bucketSubscriptionInfos s0 M)) b = [] then []
          else [notification_of (b, subs_of (registered M cs (bucketSubscriptionInfos s0 M)) b)])"
    by blast
  then show ?thesis
    using ne by (simp add: subs agg hs)
qed

text \<open>
  The calls \<open>a\<close>, \<open>c\<close>, \<open>b\<close> and \<open>a\<close> again: the aggregate of the bucket of \<open>a\<close> is
  named \<open>a\<close> and has the three entries of \<open>a\<close>, \<open>b\<close>, \<open>a\<close> in this order.
\<close>

theorem single_aggregate_witness:
  "bucketSubscriptionInfos initial Bucket_ts = [] \<and>
   on_bucket (Bucket 1)
     (zip [call_a, call_c, call_b, call_a]
        (fst (subscribe_all Bucket_ts [call_a, call_c, call_b, call_a] initial))) \<noteq> [] \<and>
   (\<exists>s2. beforeExit Bucket_ts
            (snd (subscribe_all Bucket_ts [call_a, call_c, call_b, call_a] initial)) = Inr s2 \<and>
      map bn_name (notifications_for (Bucket 1) (declared s2)) = [''a''] \<and>
      map (map lf_events \<circ> bn_lambdaFunctions) (notifications_for (Bucket 1) (declared s2)) =
        [ [ [''s3:ObjectCreated:*''], [''s3:ObjectRemoved:*''], [''s3:ObjectCreated:*''] ] ] \<and>
      map (map perm_name \<circ> bn_dependsOn) (notifications_for (Bucket 1) (declared s2)) =
        [ [''a'', ''b'', ''a''] ])"
proof -
  let ?cs = "[call_a, call_c, call_b, call_a]"
  let ?chs = "[(call_a, handle_of Bucket_ts call_a), (call_b, handle_of Bucket_ts call_b),
               (call_a, handle_of Bucket_ts call_a)]"
  have h1: "bucketSubscriptionInfos initial Bucket_ts = []"
    by (simp add: initial_def)
  have h2: "subscribe_all Bucket_ts ?cs initial =
      (fst (subscribe_all Bucket_ts ?cs initial), snd (subscribe_all Bucket_ts ?cs initial))"
    by simp
  have n0: "notifications_for (Bucket 1) (declared initial) = []"
    by (simp add: initial_def notifications_for_def)
  have e: "on_bucket (Bucket 1) (zip ?cs (fst (subscribe_all Bucket_ts ?cs initial))) = ?chs"
    by (simp add: subscribe_all_eq on_bucket_def call_a_def call_b_def call_c_def
        del: handle_of.simps)
  have h3: "on_bucket (Bucket 1) (zip ?cs (fst (subscribe_all Bucket_ts ?cs initial))) \<noteq> []"
    unfolding e by simp
  from single_aggregate [OF h1 h2 h3] obtain s2 where
    "beforeExit Bucket_ts (snd (subscribe_all Bucket_ts ?cs initial)) = Inr s2"
    "notifications_for (Bucket 1) (declared s2) = [expected_aggregate (Bucket 1) ?chs]"
    unfolding n0 e by auto
  moreover have "bn_name (expected_aggregate (Bucket 1) ?chs) = ''a''"
    by (simp add: expected_aggregate_def call_a_def)
  moreover have "map lf_events (bn_lambdaFunctions (expected_aggregate (Bucket 1) ?chs)) =
      [ [''s3:ObjectCreated:*''], [''s3:ObjectRemoved:*''], [''s3:ObjectCreated:*''] ]"
    by (simp add: expected_aggregate_def call_a_def call_b_def)
  moreover have "map perm_name (bn_dependsOn (expected_aggregate (Bucket 1) ?chs)) =
      [''a'', ''b'', ''a'']"
    by (simp add: expected_aggregate_def eval_defs)
  ultimately show ?thesis using h1 h3 by simp
qed

subsection \<open>Aggregates of a bucket over a run\<close>




subsection \<open>Calls during a pass\<close>

text \<open>
  Claim C3. Take any state \<open>s\<close> of a run and fire the handler. It ends without error,
  having replaced the map of its module by an empty one (\<open>s2\<close>). Let any calls of
  \<^verbatim>\<open>onEvent\<close> follow while the engine works on what the pass declared (\<open>s3\<close>): they
  declare no aggregate, so nothing is merged into the pass or counted in it. When the
  handler fires again (\<open>s4\<close>), each bucket on which such a call was made gets exactly one
  more aggregate, built from exactly these calls and the objects they returned (none lost,
  none twice, nothing of the snapshot already flushed), and every other bucket gets none.

  The same holds when the calls are thought to fall between the iterations of the loop: for
  every schedule of the same calls, the variant \<^const>\<open>beforeExit_during\<close> returns the same
  objects and leaves (\<open>s1\<close>) the same maps and the same aggregates as the handler followed by
  the calls, and the next firing from there (\<open>s5\<close>) declares the same aggregates.
\<close>

theorem calls_during_a_pass:
  assumes "run evs initial = Inr s"
  shows "\<exists>hs s1 s2 s3 s4 s5.
           beforeExit M s = Inr s2 \<and>
           bucketSubscriptionInfos s2 M = [] \<and>
           subscribe_all M (during_calls steps) s2 = (hs, s3) \<and>
           length hs = length (during_calls steps) \<and>
           notifications (declared s3) = notifications (declared s2) \<and>
           beforeExit M s3 = Inr s4 \<and>
           (\<forall>b. notifications_for b (declared s4) =
              notifications_for b (declared s2) @
                (if on_bucket b (zip (during_calls steps) hs) = [] then []
                 else [expected_aggregate b (on_bucket b (zip (during_calls steps) hs))])) \<and>
           beforeExit_during M steps s = Inr (hs, s1) \<and>
           bucketSubscriptionInfos s1 = bucketSubscriptionInfos s3 \<and>
           notifications (declared s1) = notifications (declared s3) \<and>
           beforeExit M s1 = Inr s5 \<and>
           notifications (declared s5) = notifications (declared s4)"
proof -
  let ?cs = "during_calls steps"
  let ?hs = "map (handle_of M) ?cs"
  let ?s0 = "s\<lparr>bucketSubscriptionInfos := (bucketSubscriptionInfos s)(M := [])\<rparr>"
  let ?R = "registered M ?cs []"
  from run_initial_ok [OF assms] have ok: "world_ok s" .
  then have n: "nonempty_lists (bucketSubscriptionInfos s M)"
    by (simp add: world_ok_def)
  from beforeExit_ok [OF ok, of M] obtain s2 where
    b2: "beforeExit M s = Inr s2" and ok2: "world_ok s2" and
    r2: "bucketSubscriptionInfos s2 = (bucketSubscriptionInfos s)(M := [])" and
    n2: "notifications (declared s2) =
           notifications (declared s) @ map notification_of (bucketSubscriptionInfos s M)"
    by (auto simp: notifications_append notifications_map)
  let ?s3 = "foldl (\<lambda>s c. subscribe M c s) s2 ?cs"
  have all: "subscribe_all M ?cs s2 = (?hs, ?s3)"
    by (rule subscribe_all_eq)
  have r3: "bucketSubscriptionInfos ?s3 = (bucketSubscriptionInfos s)(M := ?R)"
    by (simp add: subscribes_registry r2)
  have n3: "notifications (declared ?s3) = notifications (declared s2)"
    by (rule subscribes_notifications)
  have d3: "distinct (map fst (bucketSubscriptionInfos ?s3 M))"
    and e3: "nonempty_lists (bucketSubscriptionInfos ?s3 M)"
    unfolding r3
    by (simp, rule distinct_registered, simp)
       (simp, rule nonempty_registered, simp add: nonempty_lists_def)
  from beforeExit_Inr [OF e3] have b4: "beforeExit M ?s3 =
      Inr (?s3\<lparr>bucketSubscriptionInfos := (bucketSubscriptionInfos ?s3)(M := []),
               declared := declared ?s3 @
                 map (\<lambda>p. BucketNotification (notification_of p)) (bucketSubscriptionInfos ?s3 M)\<rparr>)"
    (is "_ = Inr ?s4") .
  have per: "notifications_for b (declared ?s4) =
          notifications_for b (declared s2) @
            (if on_bucket b (zip ?cs ?hs) = [] then []
             else [expected_aggregate b (on_bucket b (zip ?cs ?hs))])" for b
  proof -
    have "notifications_for b (declared ?s4) =
        notifications_for b (declared ?s3) @
          (if subs_of (bucketSubscriptionInfos ?s3 M) b = [] then []
           else [notification_of (b, subs_of (bucketSubscriptionInfos ?s3 M) b)])"
      by (simp add: notifications_for_def notifications_append notifications_map
          notifications_for_registry [OF d3 e3])
    also have "notifications_for b (declared ?s3) = notifications_for b (declared s2)"
      by (simp add: notifications_for_def n3)
    finally show ?thesis
    proof (cases "filter (\<lambda>c. call_bucket c = b) ?cs = []")
      case True
      assume "notifications_for b (declared ?s4) =
        notifications_for b (declared s2) @
          (if subs_of (bucketSubscriptionInfos ?s3 M) b = [] then []
           else [notification_of (b, subs_of (bucketSubscriptionInfos ?s3 M) b)])"
      with True show ?thesis
        by (simp add: r3 subs_of_registered subs_of_Nil on_bucket_zip)
    next
      case False
      assume "notifications_for b (declared ?s4) =
        notifications_for b (declared s2) @
          (if subs_of (bucketSubscriptionInfos ?s3 M) b = [] then []
           else [notification_of (b, subs_of (bucketSubscriptionInfos ?s3 M) b)])"
      with False show ?thesis
        by (simp add: r3 subs_of_registered subs_of_Nil on_bucket_zip
            notification_of_requests [OF False])
    qed
  qed
  from loop_during_ok [OF n, of M steps ?s0] obtain s1 where
    l: "beforeExit_during M steps s = Inr (?hs, s1)" and
    r1: "bucketSubscriptionInfos s1 = (bucketSubscriptionInfos s)(M := ?R)" and
    n1: "notifications (declared s1) =
           notifications (declared s) @ map notification_of (bucketSubscriptionInfos s M)"
    by (auto simp: beforeExit_during_def)
  have e1: "nonempty_lists (bucketSubscriptionInfos s1 M)"
    using e3 by (simp add: r1 r3)
  from beforeExit_Inr [OF e1] have b5: "beforeExit M s1 =
      Inr (s1\<lparr>bucketSubscriptionInfos := (bucketSubscriptionInfos s1)(M := []),
              declared := declared s1 @
                map (\<lambda>p. BucketNotification (notification_of p)) (bucketSubscriptionInfos s1 M)\<rparr>)"
    (is "_ = Inr ?s5") .
  have n5: "notifications (declared ?s5) = notifications (declared ?s4)"
    by (simp add: notifications_append notifications_map n1 n2 n3 r1 r3)
  have "beforeExit M s = Inr s2 \<and>
           bucketSubscriptionInfos s2 M = [] \<and>
           subscribe_all M ?cs s2 = (?hs, ?s3) \<and>
           length ?hs = length ?cs \<and>
           notifications (declared ?s3) = notifications (declared s2) \<and>
           beforeExit M ?s3 = Inr ?s4 \<and>
           (\<forall>b. notifications_for b (declared ?s4) =
              notifications_for b (declared s2) @
                (if on_bucket b (zip ?cs ?hs) = [] then []
                 else [expected_aggregate b (on_bucket b (zip ?cs ?hs))])) \<and>
           beforeExit_during M steps s = Inr (?hs, s1) \<and>
           bucketSubscriptionInfos s1 = bucketSubscriptionInfos ?s3 \<and>
           notifications (declared s1) = notifications (declared ?s3) \<and>
           beforeExit M s1 = Inr ?s5 \<and>
           notifications (declared ?s5) = notifications (declared ?s4)"
    using b2 all n3 b4 per l b5 n5 by (simp add: r2 r1 r3 n1 n2)
  then show ?thesis by blast
qed

text \<open>
  After the call \<open>a\<close> the handler fires; then \<open>b\<close> (same bucket) and \<open>c\<close> (another
  bucket) are called, in the schedule \<open>b\<close> before the iteration of the loop and \<open>c\<close> after
  it. The pass declares the aggregate \<open>a\<close> and empties the map; the next firing adds the
  aggregate \<open>b\<close> for the first bucket, with the one entry of \<open>b\<close>, and the aggregate \<open>c\<close>
  for the other.
\<close>

theorem calls_during_a_pass_witness:
  "run [Subscribe Bucket_ts call_a] initial = Inr (subscribe Bucket_ts call_a initial) \<and>
   (\<exists>hs s1 s2 s3 s4.
      beforeExit Bucket_ts (subscribe Bucket_ts call_a initial) = Inr s2 \<and>
      bucketSubscriptionInfos s2 Bucket_ts = [] \<and>
      map bn_name (notifications (declared s2)) = [''a''] \<and>
      subscribe_all Bucket_ts [call_b, call_c] s2 = (hs, s3) \<and>
      map (perm_name \<circ> sub_permission) hs = [''b'', ''c''] \<and>
      beforeExit Bucket_ts s3 = Inr s4 \<and>
      map bn_name (notifications_for (Bucket 1) (declared s4)) = [''a'', ''b''] \<and>
      map (map lf_events \<circ> bn_lambdaFunctions) (notifications_for (Bucket 1) (declared s4)) =
        [ [ [''s3:ObjectCreated:*''] ], [ [''s3:ObjectRemoved:*''] ] ] \<and>
      map bn_name (notifications_for (Bucket 2) (declared s4)) = [''c''] \<and>
      beforeExit_during Bucket_ts [During call_b, Iteration, During call_c]
        (subscribe Bucket_ts call_a initial) = Inr (hs, s1) \<and>
      bucketSubscriptionInfos s1 = bucketSubscriptionInfos s3 \<and>
      notifications (declared s1) = notifications (declared s3))"
proof -
  let ?s = "subscribe Bucket_ts call_a initial"
  let ?steps = "[During call_b, Iteration, During call_c]"
  have dc: "during_calls ?steps = [call_b, call_c]"
    by simp
  have h: "run [Subscribe Bucket_ts call_a] initial = Inr ?s"
    by simp
  from calls_during_a_pass [OF h, of Bucket_ts ?steps] obtain hs s1 s2 s3 s4 where
    b2: "beforeExit Bucket_ts ?s = Inr s2" and
    r2: "bucketSubscriptionInfos s2 Bucket_ts = []" and
    all: "subscribe_all Bucket_ts [call_b, call_c] s2 = (hs, s3)" and
    b4: "beforeExit Bucket_ts s3 = Inr s4" and
    n4: "\<And>b. notifications_for b (declared s4) =
           notifications_for b (declared s2) @
             (if on_bucket b (zip [call_b, call_c] hs) = [] then []
              else [expected_aggregate b (on_bucket b (zip [call_b, call_c] hs))])" and
    l: "beforeExit_during Bucket_ts ?steps ?s = Inr (hs, s1)" and
    r1: "bucketSubscriptionInfos s1 = bucketSubscriptionInfos s3" and
    n1: "notifications (declared s1) = notifications (declared s3)"
    unfolding dc by blast
  from all have hs: "hs = [handle_of Bucket_ts call_b, handle_of Bucket_ts call_c]"
    by (simp add: subscribe_all_eq)
  have "map_sum id (\<lambda>s. notifications (declared s)) (beforeExit Bucket_ts ?s) =
      Inr [expected_aggregate (Bucket 1) [(call_a, handle_of Bucket_ts call_a)] ]"
    by (simp add: eval_defs expected_aggregate_def)
  with b2 have d2: "notifications (declared s2) =
      [expected_aggregate (Bucket 1) [(call_a, handle_of Bucket_ts call_a)] ]"
    by simp
  have p: "map (perm_name \<circ> sub_permission) hs = [''b'', ''c'']"
    by (simp add: hs eval_defs)
  have a2: "map bn_name (notifications (declared s2)) = [''a'']"
    by (simp add: d2 expected_aggregate_def call_a_def)
  have a4: "map bn_name (notifications_for (Bucket 1) (declared s4)) = [''a'', ''b'']"
    "map (map lf_events \<circ> bn_lambdaFunctions) (notifications_for (Bucket 1) (declared s4)) =
        [ [ [''s3:ObjectCreated:*''] ], [ [''s3:ObjectRemoved:*''] ] ]"
    "map bn_name (notifications_for (Bucket 2) (declared s4)) = [''c'']"
    unfolding n4 hs
    by (simp_all add: notifications_for_def d2 on_bucket_def expected_aggregate_def
        call_a_def call_b_def call_c_def del: handle_of.simps)
  from b2 r2 a2 all p b4 a4 l r1 n1 have "\<exists>hs s1 s2 s3 s4.
      beforeExit Bucket_ts ?s = Inr s2 \<and>
      bucketSubscriptionInfos s2 Bucket_ts = [] \<and>
      map bn_name (notifications (declared s2)) = [''a''] \<and>
      subscribe_all Bucket_ts [call_b, call_c] s2 = (hs, s3) \<and>
      map (perm_name \<circ> sub_permission) hs = [''b'', ''c''] \<and>
      beforeExit Bucket_ts s3 = Inr s4 \<and>
      map bn_name (notifications_for (Bucket 1) (declared s4)) = [''a'', ''b''] \<and>
      map (map lf_events \<circ> bn_lambdaFunctions) (notifications_for (Bucket 1) (declared s4)) =
        [ [ [''s3:ObjectCreated:*''] ], [ [''s3:ObjectRemoved:*''] ] ] \<and>
      map bn_name (notifications_for (Bucket 2) (declared s4)) = [''c''] \<and>
      beforeExit_during Bucket_ts ?steps ?s = Inr (hs, s1) \<and>
      bucketSubscriptionInfos s1 = bucketSubscriptionInfos s3 \<and>
      notifications (declared s1) = notifications (declared s3)"
    by (intro exI [of _ hs] exI [of _ s1] exI [of _ s2] exI [of _ s3] exI [of _ s4]) simp
  with h show ?thesis by (intro conjI)
qed

subsection \<open>No validation of the events\<close>

text \<open>
  Claim C4, as stated, fails: no code of \<^verbatim>\<open>onEvent\<close> or of the constructor looks at the
  length of \<^verbatim>\<open>args.events\<close>, and nothing in the two modules throws on it. Called with an
  empty list at the start of the program, \<^verbatim>\<open>onEvent\<close> returns normally, having declared
  the function, the component and the permission and registered a request whose events are
  empty.
\<close>

theorem onEvent_empty_events_counterexample:
  "declared (snd (onEvent Bucket_ts ''x'' (Bucket 1) (Handler 1)
       \<lparr>filterPrefix = None, filterSuffix = None, events = []\<rparr> None initial)) =
     [Function \<lparr>fn_name = ''x-bucket-subscription'', fn_handler = Handler 1, fn_opts = None\<rparr>,
      Component
        \<lparr>comp_type = ''aws-serverless:bucket:BucketEventSubscription'', comp_name = ''x'',
         comp_func = \<lparr>fn_name = ''x-bucket-subscription'', fn_handler = Handler 1, fn_opts = None\<rparr>,
         comp_bucket = Bucket 1, comp_opts = None\<rparr>,
      Permission
        \<lparr>perm_name = ''x'',
         perm_function = \<lparr>fn_name = ''x-bucket-subscription'', fn_handler = Handler 1, fn_opts = None\<rparr>,
         perm_action = ''lambda:InvokeFunction'', perm_principal = ''s3.amazonaws.com'',
         perm_sourceArn = S3Arn (BucketId (Bucket 1)),
         perm_parent =
           \<lparr>comp_type = ''aws-serverless:bucket:BucketEventSubscription'', comp_name = ''x'',
            comp_func = \<lparr>fn_name = ''x-bucket-subscription'', fn_handler = Handler 1, fn_opts = None\<rparr>,
            comp_bucket = Bucket 1, comp_opts = None\<rparr>\<rparr>] \<and>
   map info_events
     (subs_of (bucketSubscriptionInfos (snd (onEvent Bucket_ts ''x'' (Bucket 1) (Handler 1)
        \<lparr>filterPrefix = None, filterSuffix = None, events = []\<rparr> None initial)) Bucket_ts) (Bucket 1)) =
     [ [] ]"
  by (simp add: eval_defs subs_of_def)

text \<open>
  Claim C4, amended: \<^verbatim>\<open>onEvent\<close> does not validate \<^verbatim>\<open>args.events\<close>. Every call, with
  an empty list of events or not, returns its object, declares the function, the component
  and the permission, and appends to the array of the bucket a request with the events and
  filters as given.
\<close>

theorem onEvent_registers_any_events:
  "\<exists>h s'. onEvent M name bucket handler args opts s = (h, s') \<and>
     declared s' =
       declared s @ [Function (sub_func h), Component (sub_component h),
                     Permission (sub_permission h)] \<and>
     subs_of (bucketSubscriptionInfos s' M) bucket =
       subs_of (bucketSubscriptionInfos s M) bucket @
         [\<lparr>info_name = name, info_events = events args,
           info_filterPrefix = filterPrefix args, info_filterSuffix = filterSuffix args,
           info_lambdaFunctionArn = FunctionArn (sub_func h),
           info_permission = sub_permission h\<rparr>]"
proof -
  let ?c = "Call name bucket handler args opts"
  obtain s' where eq: "onEvent M name bucket handler args opts s = (handle_of M ?c, s')"
    using onEvent_fst [of M name bucket handler args opts s]
    by (cases "onEvent M name bucket handler args opts s") simp
  then have s': "s' = snd (onEvent M name bucket handler args opts s)" by simp
  have "declared s' =
       declared s @ [Function (sub_func (handle_of M ?c)), Component (sub_component (handle_of M ?c)),
                     Permission (sub_permission (handle_of M ?c))]"
    unfolding s' by (rule onEvent_declared)
  moreover have "subs_of (bucketSubscriptionInfos s' M) bucket =
       subs_of (bucketSubscriptionInfos s M) bucket @ [request_of M ?c]"
    unfolding s' by (simp add: onEvent_registry subs_of_push del: handle_of.simps)
  ultimately show ?thesis
    using eq by (simp add: request_of_def del: handle_of.simps)
qed

subsection \<open>The name of the aggregate\<close>

text \<open>
  Claim C5. In any state of a run in which bucket \<open>b\<close> is not a key of the map, let a call
  named \<open>name\<close> be the first on \<open>b\<close> and let any calls follow, whatever their number,
  buckets and names. At the next firing the handler declares exactly one more aggregate for
  \<open>b\<close>, and its logical name is \<open>name\<close>.
\<close>

theorem aggregate_named_after_first:
  assumes "run evs initial = Inr s0"
      and "map_of (bucketSubscriptionInfos s0 M) b = None"
      and "subscribe_all M (Call name b handler args opts # cs) s0 = (hs, s1)"
  shows "\<exists>s2 n. beforeExit M s1 = Inr s2 \<and>
           notifications_for b (declared s2) = notifications_for b (declared s0) @ [n] \<and>
           bn_name n = name"
proof -
  from assms(3) have s1: "s1 = foldl (\<lambda>s c. subscribe M c s) s0 (Call name b handler args opts # cs)"
    by (simp add: subscribe_all_eq)
  from first_call_names_aggregate [OF run_initial_ok [OF assms(1)] assms(2) _ s1]
  show ?thesis by simp
qed

text \<open>After \<open>c\<close> on another bucket: a call named \<open>first\<close>, then \<open>b\<close> and \<open>a\<close>.\<close>

theorem aggregate_named_after_first_witness:
  "run [Subscribe Bucket_ts call_c] initial = Inr (subscribe Bucket_ts call_c initial) \<and>
   map_of (bucketSubscriptionInfos (subscribe Bucket_ts call_c initial) Bucket_ts) (Bucket 1) = None \<and>
   (\<exists>s2 n.
      beforeExit Bucket_ts
        (snd (subscribe_all Bucket_ts
           (Call ''first'' (Bucket 1) (Handler 3)
              \<lparr>filterPrefix = None, filterSuffix = None, events = [''s3:ObjectCreated:Put'']\<rparr>
              None # [call_b, call_a])
           (subscribe Bucket_ts call_c initial))) = Inr s2 \<and>
      notifications_for (Bucket 1) (declared s2) = [n] \<and>
      bn_name n = ''first'')"
proof -
  let ?s0 = "subscribe Bucket_ts call_c initial"
  let ?cs = "Call ''first'' (Bucket 1) (Handler 3)
              \<lparr>filterPrefix = None, filterSuffix = None, events = [''s3:ObjectCreated:Put'']\<rparr>
              None # [call_b, call_a]"
  have h1: "run [Subscribe Bucket_ts call_c] initial = Inr ?s0"
    by simp
  have h2: "map_of (bucketSubscriptionInfos ?s0 Bucket_ts) (Bucket 1) = None"
    by (simp add: eval_defs)
  have h3: "subscribe_all Bucket_ts ?cs ?s0 =
      (fst (subscribe_all Bucket_ts ?cs ?s0), snd (subscribe_all Bucket_ts ?cs ?s0))"
    by simp
  have n0: "notifications_for (Bucket 1) (declared ?s0) = []"
    by (simp add: eval_defs)
  from aggregate_named_after_first [OF h1 h2 h3] h1 h2 show ?thesis
    unfolding n0 by simp
qed

subsection \<open>Firing on an empty map\<close>

text \<open>
  Claim C6. When the map of the module is empty the handler ends without error and leaves the
  state as it is: it declares nothing. In particular, whenever a firing has ended without
  error, the map is empty and a second firing right after it declares nothing and raises
  nothing.
\<close>

theorem finalize_drained:
  "(bucketSubscriptionInfos s M = [] \<longrightarrow> beforeExit M s = Inr s) \<and>
   (beforeExit M s = Inr s' \<longrightarrow> bucketSubscriptionInfos s' M = [] \<and> beforeExit M s' = Inr s')"
proof (intro conjI impI)
  assume "bucketSubscriptionInfos s M = []"
  then show "beforeExit M s = Inr s" by (rule beforeExit_empty)
next
  assume "beforeExit M s = Inr s'"
  then have "bucketSubscriptionInfos s' = (bucketSubscriptionInfos s)(M := [])"
    by (simp add: beforeExit_def Let_def notify_all_registry)
  then show "bucketSubscriptionInfos s' M = []" by simp
  then show "beforeExit M s' = Inr s'" by (rule beforeExit_empty)
qed

text \<open>
  At the start of the program, and after the firing that follows the call \<open>a\<close>.
\<close>

theorem finalize_drained_witness:
  "bucketSubscriptionInfos initial Bucket_ts = [] \<and>
   beforeExit Bucket_ts initial = Inr initial \<and>
   (\<exists>s'. beforeExit Bucket_ts (subscribe Bucket_ts call_a initial) = Inr s' \<and>
      map bn_name (notifications (declared s')) = [''a''] \<and>
      bucketSubscriptionInfos s' Bucket_ts = [] \<and>
      beforeExit Bucket_ts s' = Inr s')"
proof -
  have h1: "bucketSubscriptionInfos initial Bucket_ts = []"
    by (simp add: initial_def)
  obtain s' where h2: "beforeExit Bucket_ts (subscribe Bucket_ts call_a initial) = Inr s'"
    and n: "map bn_name (notifications (declared s')) = [''a'']"
    by (simp add: eval_defs)
  from finalize_drained [of initial Bucket_ts] h1
  have i: "beforeExit Bucket_ts initial = Inr initial"
    by (rule conjunct1 [THEN mp])
  from finalize_drained [of "subscribe Bucket_ts call_a initial" Bucket_ts s'] h2
  have j: "bucketSubscriptionInfos s' Bucket_ts = [] \<and> beforeExit Bucket_ts s' = Inr s'"
    by (rule conjunct2 [THEN mp])
  from h2 n j have "\<exists>s'. beforeExit Bucket_ts (subscribe Bucket_ts call_a initial) = Inr s' \<and>
      map bn_name (notifications (declared s')) = [''a''] \<and>
      bucketSubscriptionInfos s' Bucket_ts = [] \<and>
      beforeExit Bucket_ts s' = Inr s'"
    by (intro exI [of _ s']) simp
  with h1 i show ?thesis by (intro conjI)
qed

subsection \<open>Empty arrays in a snapshot\<close>

text \<open>
  Claim C7, as stated, fails: the loop of the handler has no guard for an empty array and
  does not pass over it. A call of \<^verbatim>\<open>onEvent\<close> with \<^verbatim>\<open>args\<close> undefined throws after
  the constructor has put the new array into the map and before it pushes; a caller that
  catches the exception goes on with the bucket mapped to an empty array. When the handler
  fires on this map, the first argument of the constructor of the aggregate,
  \<^verbatim>\<open>subscriptions[0].name\<close>, throws a \<^verbatim>\<open>TypeError\<close>.
\<close>

theorem empty_list_counterexample:
  "fst (onEvent_unchecked Bucket_ts ''x'' (Bucket 1) (Handler 1) None None initial) = Inl TypeError \<and>
   bucketSubscriptionInfos
     (snd (onEvent_unchecked Bucket_ts ''x'' (Bucket 1) (Handler 1) None None initial)) Bucket_ts =
     [(Bucket 1, [])] \<and>
   beforeExit Bucket_ts
     (snd (onEvent_unchecked Bucket_ts ''x'' (Bucket 1) (Handler 1) None None initial)) =
     Inl TypeError"
  by (simp add: onEvent_unchecked_def BucketEventSubscription_unchecked_def eval_defs)

text \<open>
  Claim C7, amended: for a snapshot that maps some bucket to an empty subscription list the
  handler does not perform a no-op; it raises a \<^verbatim>\<open>TypeError\<close>. It ends without error
  on every snapshot whose lists are all non-empty.
\<close>

theorem empty_list_raises:
  "((b, []) \<in> set (bucketSubscriptionInfos s M) \<longrightarrow> beforeExit M s = Inl TypeError) \<and>
   (nonempty_lists (bucketSubscriptionInfos s M) \<longrightarrow> (\<exists>s'. beforeExit M s = Inr s'))"
  by (simp add: beforeExit_def Let_def notify_all_empty notify_all_Inr)

text \<open>
  After the call \<open>c\<close>: a call on another bucket that throws for want of \<^verbatim>\<open>args\<close> leaves
  its empty array and the handler raises; without it the handler ends without error.
\<close>

theorem empty_list_raises_witness:
  "(Bucket 1, []) \<in> set (bucketSubscriptionInfos
     (snd (onEvent_unchecked Bucket_ts ''x'' (Bucket 1) (Handler 1) None None
        (subscribe Bucket_ts call_c initial))) Bucket_ts) \<and>
   beforeExit Bucket_ts
     (snd (onEvent_unchecked Bucket_ts ''x'' (Bucket 1) (Handler 1) None None
        (subscribe Bucket_ts call_c initial))) = Inl TypeError \<and>
   nonempty_lists (bucketSubscriptionInfos (subscribe Bucket_ts call_c initial) Bucket_ts) \<and>
   (\<exists>s'. beforeExit Bucket_ts (subscribe Bucket_ts call_c initial) = Inr s')"
proof -
  let ?s = "snd (onEvent_unchecked Bucket_ts ''x'' (Bucket 1) (Handler 1) None None
        (subscribe Bucket_ts call_c initial))"
  have h1: "(Bucket 1, []) \<in> set (bucketSubscriptionInfos ?s Bucket_ts)"
    by (simp add: onEvent_unchecked_def BucketEventSubscription_unchecked_def eval_defs)
  have h2: "nonempty_lists (bucketSubscriptionInfos (subscribe Bucket_ts call_c initial) Bucket_ts)"
    by (simp add: eval_defs nonempty_lists_def)
  from empty_list_raises [of "Bucket 1" ?s Bucket_ts] h1
  have a: "beforeExit Bucket_ts ?s = Inl TypeError"
    by (rule conjunct1 [THEN mp])
  from empty_list_raises [of "Bucket 1" "subscribe Bucket_ts call_c initial" Bucket_ts] h2
  have b: "\<exists>s'. beforeExit Bucket_ts (subscribe Bucket_ts call_c initial) = Inr s'"
    by (rule conjunct2 [THEN mp])
  from h1 a h2 b show ?thesis by (intro conjI)
qed

subsection \<open>The helpers\<close>

text \<open>
  Claim C8. Each helper calls \<^verbatim>\<open>onEvent\<close> with the filters it was given, unchanged, and
  with one event: \<^verbatim>\<open>onPut\<close> with \<open>s3:ObjectCreated:*\<close>, \<^verbatim>\<open>onDelete\<close> with
  \<open>s3:ObjectRemoved:*\<close>, whether arguments are passed or not; \<^verbatim>\<open>onObjectCreated\<close> and
  \<^verbatim>\<open>onObjectRemoved\<close> with \<open>s3:ObjectCreated:\<close> resp. \<open>s3:ObjectRemoved:\<close> followed by
  \<open>*\<close> when the arguments or the qualifier are omitted, and by the qualifier \<open>X\<close> when one
  is given (every qualifier of the declared type is a non-empty string; the empty one is the
  matter of claim C9).
\<close>

theorem helper_events:
  "onPut name b h None opts s =
     onEvent Bucket_ts (name @ ''-put'') b h
       \<lparr>filterPrefix = None, filterSuffix = None, events = [''s3:ObjectCreated:*'']\<rparr> opts s \<and>
   onPut name b h (Some \<lparr>filterPrefix = p, filterSuffix = q\<rparr>) opts s =
     onEvent Bucket_ts (name @ ''-put'') b h
       \<lparr>filterPrefix = p, filterSuffix = q, events = [''s3:ObjectCreated:*'']\<rparr> opts s \<and>
   onDelete name b h None opts s =
     onEvent Bucket_ts (name @ ''-delete'') b h
       \<lparr>filterPrefix = None, filterSuffix = None, events = [''s3:ObjectRemoved:*'']\<rparr> opts s \<and>
   onDelete name b h (Some \<lparr>filterPrefix = p, filterSuffix = q\<rparr>) opts s =
     onEvent Bucket_ts (name @ ''-delete'') b h
       \<lparr>filterPrefix = p, filterSuffix = q, events = [''s3:ObjectRemoved:*'']\<rparr> opts s \<and>
   onObjectCreated name b h None opts s =
     onEvent S3_bucket_ts (name @ ''-object-created'') b h
       \<lparr>filterPrefix = None, filterSuffix = None, events = [''s3:ObjectCreated:*'']\<rparr> opts s \<and>
   onObjectCreated name b h (Some \<lparr>filterPrefix = p, filterSuffix = q, event = None\<rparr>) opts s =
     onEvent S3_bucket_ts (name @ ''-object-created'') b h
       \<lparr>filterPrefix = p, filterSuffix = q, events = [''s3:ObjectCreated:*'']\<rparr> opts s \<and>
   (X \<noteq> [] \<longrightarrow>
    onObjectCreated name b h (Some \<lparr>filterPrefix = p, filterSuffix = q, event = Some X\<rparr>) opts s =
      onEvent S3_bucket_ts (name @ ''-object-created'') b h
        \<lparr>filterPrefix = p, filterSuffix = q, events = [''s3:ObjectCreated:'' @ X]\<rparr> opts s) \<and>
   onObjectRemoved name b h None opts s =
     onEvent S3_bucket_ts (name @ ''-object-removed'') b h
       \<lparr>filterPrefix = None, filterSuffix = None, events = [''s3:ObjectRemoved:*'']\<rparr> opts s \<and>
   onObjectRemoved name b h (Some \<lparr>filterPrefix = p, filterSuffix = q, event = None\<rparr>) opts s =
     onEvent S3_bucket_ts (name @ ''-object-removed'') b h
       \<lparr>filterPrefix = p, filterSuffix = q, events = [''s3:ObjectRemoved:*'']\<rparr> opts s \<and>
   (X \<noteq> [] \<longrightarrow>
    onObjectRemoved name b h (Some \<lparr>filterPrefix = p, filterSuffix = q, event = Some X\<rparr>) opts s =
      onEvent S3_bucket_ts (name @ ''-object-removed'') b h
        \<lparr>filterPrefix = p, filterSuffix = q, events = [''s3:ObjectRemoved:'' @ X]\<rparr> opts s)"
  by (simp add: onPut_onEvent onDelete_onEvent onObjectCreated_onEvent onObjectRemoved_onEvent
      or_star_def)

text \<open>
  The qualifiers \<open>Put\<close> and \<open>Delete\<close>, with a prefix filter, at the start of the program.
\<close>

theorem helper_events_witness:
  "''Put'' \<noteq> [] \<and> ''Delete'' \<noteq> [] \<and>
   onObjectCreated ''x'' (Bucket 1) (Handler 1)
     (Some \<lparr>filterPrefix = Some ''in/'', filterSuffix = None, event = Some ''Put''\<rparr>) None initial =
     onEvent S3_bucket_ts ''x-object-created'' (Bucket 1) (Handler 1)
       \<lparr>filterPrefix = Some ''in/'', filterSuffix = None, events = [''s3:ObjectCreated:Put'']\<rparr>
       None initial \<and>
   onObjectRemoved ''x'' (Bucket 1) (Handler 1)
     (Some \<lparr>filterPrefix = Some ''in/'', filterSuffix = None, event = Some ''Delete''\<rparr>) None initial =
     onEvent S3_bucket_ts ''x-object-removed'' (Bucket 1) (Handler 1)
       \<lparr>filterPrefix = Some ''in/'', filterSuffix = None, events = [''s3:ObjectRemoved:Delete'']\<rparr>
       None initial"
  using helper_events [of "''x''" "Bucket 1" "Handler 1" None initial "Some ''in/''" None "''Put''"]
        helper_events [of "''x''" "Bucket 1" "Handler 1" None initial "Some ''in/''" None "''Delete''"]
  by simp

text \<open>
  Claim C9, as stated, fails: a helper called with the empty string as qualifier is not
  rejected. The call below returns normally, having declared its three resources and
  registered a request for the event \<open>s3:ObjectCreated:*\<close>.
\<close>

theorem empty_qualifier_counterexample:
  "map info_events
     (subs_of (bucketSubscriptionInfos (snd (onObjectCreated ''x'' (Bucket 1) (Handler 1)
        (Some \<lparr>filterPrefix = None, filterSuffix = None, event = Some ''''\<rparr>) None initial))
        S3_bucket_ts) (Bucket 1)) = [ [''s3:ObjectCreated:*''] ] \<and>
   length (declared (snd (onObjectCreated ''x'' (Bucket 1) (Handler 1)
        (Some \<lparr>filterPrefix = None, filterSuffix = None, event = Some ''''\<rparr>) None initial))) = 3"
  by (simp add: eval_defs subs_of_def onObjectCreated_def or_star_def)

text \<open>
  Claim C9, amended: a helper that takes a qualifier treats the empty string as it treats an
  omitted qualifier. It does not reject the call; it subscribes to \<open>*\<close> of its category.
\<close>

theorem empty_qualifier_defaults:
  "onObjectCreated name b h (Some \<lparr>filterPrefix = p, filterSuffix = q, event = Some ''''\<rparr>) opts s =
     onEvent S3_bucket_ts (name @ ''-object-created'') b h
       \<lparr>filterPrefix = p, filterSuffix = q, events = [''s3:ObjectCreated:*'']\<rparr> opts s \<and>
   onObjectRemoved name b h (Some \<lparr>filterPrefix = p, filterSuffix = q, event = Some ''''\<rparr>) opts s =
     onEvent S3_bucket_ts (name @ ''-object-removed'') b h
       \<lparr>filterPrefix = p, filterSuffix = q, events = [''s3:ObjectRemoved:*'']\<rparr> opts s"
  by (simp add: onObjectCreated_onEvent onObjectRemoved_onEvent or_star_def)

text \<open>
  Claim C10. Each helper registers its request under the name it was given followed by its
  suffix: \<open>-put\<close>, \<open>-delete\<close>, \<open>-object-created\<close>, \<open>-object-removed\<close>. Hence, in any state
  of a run in which the bucket is not a key of the map of the helper's module, when the
  helper call is the first on the bucket, whatever calls of \<^verbatim>\<open>onEvent\<close> follow, the
  aggregate that the next firing declares for the bucket bears the suffixed name.
\<close>

theorem helper_names:
  "map info_name (subs_of (bucketSubscriptionInfos (snd (onPut name b h a opts s)) Bucket_ts) b) =
     map info_name (subs_of (bucketSubscriptionInfos s Bucket_ts) b) @ [name @ ''-put''] \<and>
   map info_name (subs_of (bucketSubscriptionInfos (snd (onDelete name b h a opts s)) Bucket_ts) b) =
     map info_name (subs_of (bucketSubscriptionInfos s Bucket_ts) b) @ [name @ ''-delete''] \<and>
   map info_name
     (subs_of (bucketSubscriptionInfos (snd (onObjectCreated name b h a' opts s)) S3_bucket_ts) b) =
     map info_name (subs_of (bucketSubscriptionInfos s S3_bucket_ts) b) @
       [name @ ''-object-created''] \<and>
   map info_name
     (subs_of (bucketSubscriptionInfos (snd (onObjectRemoved name b h a' opts s)) S3_bucket_ts) b) =
     map info_name (subs_of (bucketSubscriptionInfos s S3_bucket_ts) b) @
       [name @ ''-object-removed''] \<and>
   (run evs initial = Inr s \<and> map_of (bucketSubscriptionInfos s Bucket_ts) b = None \<longrightarrow>
      (\<exists>s2 n. beforeExit Bucket_ts
                 (snd (subscribe_all Bucket_ts cs (snd (onPut name b h a opts s)))) = Inr s2 \<and>
         notifications_for b (declared s2) = notifications_for b (declared s) @ [n] \<and>
         bn_name n = name @ ''-put'') \<and>
      (\<exists>s2 n. beforeExit Bucket_ts
                 (snd (subscribe_all Bucket_ts cs (snd (onDelete name b h a opts s)))) = Inr s2 \<and>
         notifications_for b (declared s2) = notifications_for b (declared s) @ [n] \<and>
         bn_name n = name @ ''-delete'')) \<and>
   (run evs initial = Inr s \<and> map_of (bucketSubscriptionInfos s S3_bucket_ts) b = None \<longrightarrow>
      (\<exists>s2 n. beforeExit S3_bucket_ts
                 (snd (subscribe_all S3_bucket_ts cs (snd (onObjectCreated name b h a' opts s)))) =
                 Inr s2 \<and>
         notifications_for b (declared s2) = notifications_for b (declared s) @ [n] \<and>
         bn_name n = name @ ''-object-created'') \<and>
      (\<exists>s2 n. beforeExit S3_bucket_ts
                 (snd (subscribe_all S3_bucket_ts cs (snd (onObjectRemoved name b h a' opts s)))) =
                 Inr s2 \<and>
         notifications_for b (declared s2) = notifications_for b (declared s) @ [n] \<and>
         bn_name n = name @ ''-object-removed''))"
  unfolding onPut_onEvent onDelete_onEvent onObjectCreated_onEvent onObjectRemoved_onEvent
  by (intro conjI impI helper_registers; elim conjE; rule helper_first; assumption)

text \<open>
  At the start of the program: each helper called as \<open>x\<close> on a bucket, followed by the
  calls \<open>b\<close> and \<open>a\<close> on the same bucket.
\<close>

theorem helper_names_witness:
  "run [] initial = Inr initial \<and>
   map_of (bucketSubscriptionInfos initial Bucket_ts) (Bucket 1) = None \<and>
   map_of (bucketSubscriptionInfos initial S3_bucket_ts) (Bucket 1) = None \<and>
   (\<exists>s2 n. beforeExit Bucket_ts
              (snd (subscribe_all Bucket_ts [call_b, call_a]
                 (snd (onPut ''x'' (Bucket 1) (Handler 1) None None initial)))) = Inr s2 \<and>
      notifications_for (Bucket 1) (declared s2) = [n] \<and> bn_name n = ''x-put'') \<and>
   (\<exists>s2 n. beforeExit Bucket_ts
              (snd (subscribe_all Bucket_ts [call_b, call_a]
                 (snd (onDelete ''x'' (Bucket 1) (Handler 1) None None initial)))) = Inr s2 \<and>
      notifications_for (Bucket 1) (declared s2) = [n] \<and> bn_name n = ''x-delete'') \<and>
   (\<exists>s2 n. beforeExit S3_bucket_ts
              (snd (subscribe_all S3_bucket_ts [call_b, call_a]
                 (snd (onObjectCreated ''x'' (Bucket 1) (Handler 1) None None initial)))) = Inr s2 \<and>
      notifications_for (Bucket 1) (declared s2) = [n] \<and> bn_name n = ''x-object-created'') \<and>
   (\<exists>s2 n. beforeExit S3_bucket_ts
              (snd (subscribe_all S3_bucket_ts [call_b, call_a]
                 (snd (onObjectRemoved ''x'' (Bucket 1) (Handler 1) None None initial)))) = Inr s2 \<and>
      notifications_for (Bucket 1) (declared s2) = [n] \<and> bn_name n = ''x-object-removed'')"
proof -
  have h1: "run [] initial = Inr initial"
    by simp
  have h2: "map_of (bucketSubscriptionInfos initial Bucket_ts) (Bucket 1) = None"
    "map_of (bucketSubscriptionInfos initial S3_bucket_ts) (Bucket 1) = None"
    by (simp_all add: initial_def)
  have n0: "notifications_for (Bucket 1) (declared initial) = []"
    by (simp add: initial_def notifications_for_def)
  from helper_names [of "''x''" "Bucket 1" "Handler 1" None None initial None "[]"
      "[call_b, call_a]"] h1 h2
  show ?thesis unfolding n0 by simp
qed

end
